theory Spec2Isabelle
  imports Complex_Main
begin

section \<open>Values, errors and the media backend\<close>

text \<open>
  The development embeds \<^verbatim>\<open>concat_videos.py\<close> of the compare-video-result tool:
  \<^verbatim>\<open>load_config\<close>, \<^verbatim>\<open>verify_videos\<close> and \<^verbatim>\<open>process_and_composite_videos\<close>.

  Python values that travel through the configuration dictionary are values of
  \<open>pyval\<close>. A dictionary is an association list with string keys (the code only ever
  looks up string keys). A frame rate or a duration is a finite double, given by the
  real number it denotes; the subtractions of the tolerance tests round as double
  arithmetic does (section \<open>Double arithmetic\<close>). The width of the caption text,
  \<^verbatim>\<open>original_width * 0.9\<close>, is only handed on to the backend and is kept as the exact
  product. \<^verbatim>\<open>print\<close> calls are not modelled.
\<close>

datatype pyval =
    PNone
  | PBool bool
  | PInt int
  | PFloat real
  | PStr string
  | PPath string
  | PTuple "pyval list"
  | PList "pyval list"
  | PDict "(string \<times> pyval) list"

text \<open>
  The messages of the \<^verbatim>\<open>ValueError\<close>s the module raises, one constructor per
  \<^verbatim>\<open>raise ValueError(...)\<close> statement, carrying the values the message interpolates.
\<close>

datatype value_error =
    NotADictionary
  | VideosMissingOrNotList
  | InvalidNumberOfVideos nat
  | EntryNotADictionary nat
  | EntryPathMissingOrNotString nat
  | OutputVideoMissingOrNotString
  | NoVideoConfigurations
  | VideoSizeMismatch string "int \<times> int" "int \<times> int" string
  | VideoFPSMismatch string real real string
  | VideoDurationMismatch string real real string
  | NoCombinedVerticalClips

datatype error =
    FileNotFoundError string
  | YAMLError
  | ValueError value_error
  | OSError string
  | IndexError
  | KeyError string
  | UnboundLocalError string

text \<open>
  The media backend (moviepy) is external. A path either names no file, a file that
  cannot be opened as a video, or a video with a frame size, a frame rate and a duration.
\<close>

datatype media_file =
    Absent
  | Unreadable
  | Media "int \<times> int" real real

type_synonym filesystem = "string \<Rightarrow> media_file"

text \<open>\<^verbatim>\<open>VideoConfig\<close>: a dictionary with the keys \<^verbatim>\<open>'path'\<close> and \<^verbatim>\<open>'description'\<close>.\<close>

record video_config =
  path :: string
  description :: string

text \<open>
  A \<^verbatim>\<open>VideoFileClip\<close> object. \<open>clip_id\<close> is the identity of the object; whether its
  \<^verbatim>\<open>reader\<close> attribute is still set (the media handle is open) is part of the state.
\<close>

record video_file_clip =
  clip_id :: nat
  filename :: string
  size_v :: "int \<times> int"
  fps :: real
  duration :: real

text \<open>The layout tree handed to the encoder.\<close>

datatype clip =
    Video video_file_clip
  | ColorClip "int \<times> pyval" pyval bool real
  | TextClip string pyval pyval string "real \<times> pyval"
  | SetPosition clip string
  | SetDuration clip real
  | CompositeVideoClip "clip list" bool
  | ClipsArray "clip list list"

text \<open>One call of \<^verbatim>\<open>write_videofile\<close>.\<close>

record write_call =
  composite :: clip
  out_file :: string
  codec :: string
  out_fps :: real
  threads :: nat
  preset :: string

text \<open>
  The state of the backend: the next object identity, the clips whose reader is open
  (in the order they were opened), and the files written so far.
\<close>

record media_state =
  next_id :: nat
  open_readers :: "nat list"
  written :: "write_call list"

definition path_exists :: "filesystem \<Rightarrow> string \<Rightarrow> bool" where
  "path_exists fs p = (fs p \<noteq> Absent)"

text \<open>\<^verbatim>\<open>VideoFileClip(str(path))\<close>: opens a reader, or raises.\<close>

definition VideoFileClip ::
  "filesystem \<Rightarrow> string \<Rightarrow> media_state \<Rightarrow> media_state \<times> (error + video_file_clip)" where
  "VideoFileClip fs p s =
     (case fs p of
        Media sz f d \<Rightarrow>
          (s\<lparr>next_id := Suc (next_id s), open_readers := open_readers s @ [next_id s]\<rparr>,
           Inr \<lparr>clip_id = next_id s, filename = p, size_v = sz, fps = f, duration = d\<rparr>)
      | _ \<Rightarrow> (s, Inl (OSError p)))"

text \<open>\<^verbatim>\<open>clip.reader is not None\<close> and \<^verbatim>\<open>clip.close()\<close>.\<close>

definition reader_open :: "media_state \<Rightarrow> video_file_clip \<Rightarrow> bool" where
  "reader_open s c = (clip_id c \<in> set (open_readers s))"

definition close :: "video_file_clip \<Rightarrow> media_state \<Rightarrow> media_state" where
  "close c s = s\<lparr>open_readers := removeAll (clip_id c) (open_readers s)\<rparr>"

section \<open>Double arithmetic\<close>

text \<open>
  The result of an arithmetic operation on doubles: a finite double, given by its value,
  or an infinity. (A difference of two finite doubles is never a NaN.)
\<close>

datatype pyfloat =
    Finite real
  | PosInf
  | NegInf

text \<open>Rounding a real to the nearest integer, a tie going to the even one.\<close>

definition round_half_even :: "real \<Rightarrow> int" where
  "round_half_even q =
     (if q - of_int \<lfloor>q\<rfloor> < 1 / 2 then \<lfloor>q\<rfloor>
      else if q - of_int \<lfloor>q\<rfloor> > 1 / 2 then \<lfloor>q\<rfloor> + 1
      else if even \<lfloor>q\<rfloor> then \<lfloor>q\<rfloor> else \<lfloor>q\<rfloor> + 1)"

text \<open>
  The spacing of the doubles around a magnitude \<open>a\<close>: the least power of two \<open>u\<close>,
  from \<^verbatim>\<open>2^-1074\<close> (the spacing of the subnormal numbers) up to \<^verbatim>\<open>2^971\<close>, with
  \<^verbatim>\<open>a < u * 2^53\<close>, so that \<open>a / u\<close> fits the 53 bits of a significand. There is none
  when \<open>a\<close> is \<^verbatim>\<open>2^1024\<close> or more.
\<close>

fun spacing_search :: "nat \<Rightarrow> real \<Rightarrow> real \<Rightarrow> real option" where
  "spacing_search 0 u a = None"
| "spacing_search (Suc n) u a =
     (if a < u * 2 ^ 53 then Some u else spacing_search n (2 * u) a)"

definition spacing :: "real \<Rightarrow> real option" where
  "spacing a = spacing_search 2046 (1 / 2 ^ 1074) a"

text \<open>
  Rounding a real to the nearest double, ties to even (the rounding of every arithmetic
  operation on Python floats): the nearest multiple of the spacing, or an infinity when
  the magnitude of the result is \<^verbatim>\<open>2^1024\<close> or more.
\<close>

definition round_double :: "real \<Rightarrow> pyfloat" where
  "round_double x =
     (case spacing \<bar>x\<bar> of
        None \<Rightarrow> (if x < 0 then NegInf else PosInf)
      | Some u \<Rightarrow>
          if \<bar>of_int (round_half_even (x / u)) * u\<bar> \<ge> 2 ^ 1024
          then (if x < 0 then NegInf else PosInf)
          else Finite (of_int (round_half_even (x / u)) * u))"

text \<open>\<^verbatim>\<open>a - b\<close> on two finite doubles, \<^verbatim>\<open>abs(x)\<close>, and \<^verbatim>\<open>x > t\<close> for a finite \<open>t\<close>.\<close>

definition float_sub :: "real \<Rightarrow> real \<Rightarrow> pyfloat" where
  "float_sub a b = round_double (a - b)"

fun float_abs :: "pyfloat \<Rightarrow> pyfloat" where
  "float_abs (Finite r) = Finite \<bar>r\<bar>"
| "float_abs PosInf = PosInf"
| "float_abs NegInf = PosInf"

fun float_gt :: "pyfloat \<Rightarrow> real \<Rightarrow> bool" where
  "float_gt (Finite r) t = (r > t)"
| "float_gt PosInf t = True"
| "float_gt NegInf t = False"

text \<open>
  The doubles that the literals \<^verbatim>\<open>0.001\<close> and \<^verbatim>\<open>0.1\<close> denote,
  \<^verbatim>\<open>0x1.0624dd2f1a9fcp-10\<close> and \<^verbatim>\<open>0x1.999999999999ap-4\<close>.
\<close>

definition float_0_001 :: real where
  "float_0_001 = 1152921504606847 / 2 ^ 60"

definition float_0_1 :: real where
  "float_0_1 = 3602879701896397 / 2 ^ 55"

section \<open>verify_videos\<close>

text \<open>
  The cleanup loop of the \<^verbatim>\<open>except\<close> and \<^verbatim>\<open>finally\<close> blocks:
  \<^verbatim>\<open>for clip in clips: if clip and clip.reader is not None: clip.close()\<close>.
\<close>

fun close_clips :: "video_file_clip list \<Rightarrow> media_state \<Rightarrow> media_state" where
  "close_clips [] s = s"
| "close_clips (c # cs) s = close_clips cs (if reader_open s c then close c s else s)"

text \<open>
  The loop over \<^verbatim>\<open>video_configs[1:]\<close>. It returns the state, the list \<^verbatim>\<open>clips\<close> as it
  stands when the loop is left, and the exception raised, if any. A clip is appended to
  \<^verbatim>\<open>clips\<close> only after its three checks have passed. The frame rate and duration
  tests subtract in double arithmetic and compare with the doubles \<^verbatim>\<open>0.001\<close> and
  \<^verbatim>\<open>0.1\<close>.
\<close>

fun check_subsequent ::
  "filesystem \<Rightarrow> string \<Rightarrow> int \<times> int \<Rightarrow> real \<Rightarrow> real \<Rightarrow> video_config list \<Rightarrow>
   video_file_clip list \<Rightarrow> media_state \<Rightarrow>
   media_state \<times> video_file_clip list \<times> (error + unit)" where
  "check_subsequent fs base_video_path base_size base_fps base_duration [] clips s =
     (s, clips, Inr ())"
| "check_subsequent fs base_video_path base_size base_fps base_duration (video_entry # rest) clips s =
     (if \<not> path_exists fs (path video_entry) then
        (s, clips, Inl (FileNotFoundError (path video_entry)))
      else
        (case VideoFileClip fs (path video_entry) s of
           (s', Inl e) \<Rightarrow> (s', clips, Inl e)
         | (s', Inr c) \<Rightarrow>
             if size_v c \<noteq> base_size then
               (s', clips, Inl (ValueError (VideoSizeMismatch (path video_entry) (size_v c)
                                              base_size base_video_path)))
             else if fps c \<noteq> base_fps
                     \<and> float_gt (float_abs (float_sub (fps c) base_fps)) float_0_001 then
               (s', clips, Inl (ValueError (VideoFPSMismatch (path video_entry) (fps c)
                                              base_fps base_video_path)))
             else if float_gt (float_abs (float_sub (duration c) base_duration)) float_0_1 then
               (s', clips, Inl (ValueError (VideoDurationMismatch (path video_entry) (duration c)
                                              base_duration base_video_path)))
             else
               check_subsequent fs base_video_path base_size base_fps base_duration rest
                 (clips @ [c]) s'))"

text \<open>The body of the \<^verbatim>\<open>try\<close> block, for a non-empty list.\<close>

definition verify_try ::
  "filesystem \<Rightarrow> video_config \<Rightarrow> video_config list \<Rightarrow> media_state \<Rightarrow>
   media_state \<times> video_file_clip list \<times> (error + unit)" where
  "verify_try fs first rest s =
     (if \<not> path_exists fs (path first) then (s, [], Inl (FileNotFoundError (path first)))
      else
        (case VideoFileClip fs (path first) s of
           (s', Inl e) \<Rightarrow> (s', [], Inl e)
         | (s', Inr base_clip) \<Rightarrow>
             check_subsequent fs (path first) (size_v base_clip) (fps base_clip)
               (duration base_clip) rest [base_clip] s'))"

text \<open>
  \<^verbatim>\<open>verify_videos\<close>. On an exception the \<^verbatim>\<open>except\<close> block closes the clips of
  \<^verbatim>\<open>clips\<close> and re-raises, then the \<^verbatim>\<open>finally\<close> block runs the same loop again; on
  success only the \<^verbatim>\<open>finally\<close> block runs. The function has no \<^verbatim>\<open>return\<close> statement:
  it returns \<^verbatim>\<open>None\<close>.
\<close>

fun verify_videos ::
  "filesystem \<Rightarrow> video_config list \<Rightarrow> media_state \<Rightarrow> media_state \<times> (error + pyval)" where
  "verify_videos fs [] s = (s, Inl (ValueError NoVideoConfigurations))"
| "verify_videos fs (first # rest) s =
     (case verify_try fs first rest s of
        (s', clips, Inl e) \<Rightarrow> (close_clips clips (close_clips clips s'), Inl e)
      | (s', clips, Inr u) \<Rightarrow> (close_clips clips s', Inr PNone))"

text \<open>
  The three \<^verbatim>\<open>ValueError\<close>s of the comparison loop are the property mismatch errors.
\<close>

fun is_property_mismatch :: "error \<Rightarrow> bool" where
  "is_property_mismatch (ValueError (VideoSizeMismatch p a b q)) = True"
| "is_property_mismatch (ValueError (VideoFPSMismatch p a b q)) = True"
| "is_property_mismatch (ValueError (VideoDurationMismatch p a b q)) = True"
| "is_property_mismatch e = False"

fun raises_property_mismatch :: "error + 'a \<Rightarrow> bool" where
  "raises_property_mismatch (Inl e) = is_property_mismatch e"
| "raises_property_mismatch (Inr v) = False"

text \<open>The file behind an entry exists and opens.\<close>

fun is_media :: "media_file \<Rightarrow> bool" where
  "is_media (Media sz f d) = True"
| "is_media m = False"

definition opens :: "filesystem \<Rightarrow> video_config \<Rightarrow> bool" where
  "opens fs e = is_media (fs (path e))"

text \<open>
  The tolerances as the specification words them: a clip disagrees with the baseline
  when its frame size is different, or its frame rate is off by more than 0.001, or its
  duration is off by more than 0.1 seconds.
\<close>

fun disagrees :: "media_file \<Rightarrow> media_file \<Rightarrow> bool" where
  "disagrees (Media bsz bf bd) (Media sz f d) =
     (sz \<noteq> bsz \<or> \<bar>f - bf\<bar> > 0.001 \<or> \<bar>d - bd\<bar> > 0.1)"
| "disagrees b m = False"

text \<open>
  The three tests of the loop body, for the file behind an entry against the file behind
  the first one.
\<close>

fun fails_comparison :: "media_file \<Rightarrow> media_file \<Rightarrow> bool" where
  "fails_comparison (Media bsz bf bd) (Media sz f d) =
     (sz \<noteq> bsz
      \<or> (f \<noteq> bf \<and> float_gt (float_abs (float_sub f bf)) float_0_001)
      \<or> float_gt (float_abs (float_sub d bd)) float_0_1)"
| "fails_comparison b m = False"

section \<open>load_config\<close>

text \<open>
  What \<^verbatim>\<open>yaml_path\<close> holds: no file, a file that \<^verbatim>\<open>yaml.safe_load\<close> rejects, or a
  file that decodes to a value.
\<close>

datatype yaml_file =
    NoFile
  | Malformed
  | Decoded pyval

text \<open>\<^verbatim>\<open>d[k] = v\<close> on a dictionary: an existing key keeps its position.\<close>

fun dict_set :: "string \<Rightarrow> pyval \<Rightarrow> (string \<times> pyval) list \<Rightarrow> (string \<times> pyval) list" where
  "dict_set k v [] = [(k, v)]"
| "dict_set k v ((k', v') # d) = (if k' = k then (k, v) # d else (k', v') # dict_set k v d)"

text \<open>\<^verbatim>\<open>d.get(k, default)\<close>.\<close>

definition dict_get :: "(string \<times> pyval) list \<Rightarrow> string \<Rightarrow> pyval \<Rightarrow> pyval" where
  "dict_get d k dflt = (case map_of d k of None \<Rightarrow> dflt | Some v \<Rightarrow> v)"

text \<open>\<^verbatim>\<open>d[k]\<close>, which raises \<^verbatim>\<open>KeyError\<close> on a missing key.\<close>

definition dict_item :: "(string \<times> pyval) list \<Rightarrow> string \<Rightarrow> error + pyval" where
  "dict_item d k = (case map_of d k of None \<Rightarrow> Inl (KeyError k) | Some v \<Rightarrow> Inr v)"

text \<open>
  \<^verbatim>\<open>isinstance(v, (int, float))\<close>: \<^verbatim>\<open>bool\<close> is a subclass of \<^verbatim>\<open>int\<close>, with
  \<^verbatim>\<open>True == 1\<close> and \<^verbatim>\<open>False == 0\<close>.
\<close>

fun is_number :: "pyval \<Rightarrow> bool" where
  "is_number (PBool b) = True"
| "is_number (PInt i) = True"
| "is_number (PFloat x) = True"
| "is_number v = False"

fun number_value :: "pyval \<Rightarrow> real" where
  "number_value (PBool b) = (if b then 1 else 0)"
| "number_value (PInt i) = real_of_int i"
| "number_value (PFloat x) = x"
| "number_value v = 0"

text \<open>\<^verbatim>\<open>isinstance(v, (str, tuple))\<close>.\<close>

fun is_str_or_tuple :: "pyval \<Rightarrow> bool" where
  "is_str_or_tuple (PStr t) = True"
| "is_str_or_tuple (PTuple vs) = True"
| "is_str_or_tuple v = False"

text \<open>
  The loop over \<^verbatim>\<open>enumerate(config['videos'])\<close>, with the list
  \<^verbatim>\<open>processed_videos_config\<close> as accumulator. A missing or non-string description
  becomes the empty string.
\<close>

fun process_entries :: "nat \<Rightarrow> pyval list \<Rightarrow> pyval list \<Rightarrow> error + pyval list" where
  "process_entries i [] processed = Inr processed"
| "process_entries i (video_entry # rest) processed =
     (case video_entry of
        PDict d \<Rightarrow>
          (case map_of d ''path'' of
             Some (PStr p) \<Rightarrow>
               process_entries (Suc i) rest
                 (processed @
                    [PDict [(''path'', PPath p),
                            (''description'',
                             (case map_of d ''description'' of
                                Some (PStr t) \<Rightarrow> PStr t
                              | _ \<Rightarrow> PStr []))]])
           | _ \<Rightarrow> Inl (ValueError (EntryPathMissingOrNotString i)))
      | _ \<Rightarrow> Inl (ValueError (EntryNotADictionary i)))"

text \<open>
  The four optional parameters share one shape: store \<^verbatim>\<open>config.get(key, default)\<close>
  under the key, then overwrite it with the default when the value is invalid.
\<close>

definition with_default ::
  "string \<Rightarrow> pyval \<Rightarrow> (pyval \<Rightarrow> bool) \<Rightarrow> (string \<times> pyval) list \<Rightarrow> (string \<times> pyval) list" where
  "with_default k dflt invalid config =
     (let config' = dict_set k (dict_get config k dflt) config
      in if invalid (dict_get config k dflt) then dict_set k dflt config' else config')"

text \<open>
  \<^verbatim>\<open>load_config\<close>. Creating the parent directory of the output path is not modelled,
  and a \<^verbatim>\<open>Path\<close> keeps the string it was made from.
\<close>

definition load_config ::
  "(string \<Rightarrow> yaml_file) \<Rightarrow> string \<Rightarrow> error + (string \<times> pyval) list" where
  "load_config files yaml_path =
     (case files yaml_path of
        NoFile \<Rightarrow> Inl (FileNotFoundError yaml_path)
      | Malformed \<Rightarrow> Inl YAMLError
      | Decoded (PDict config) \<Rightarrow>
          (case map_of config ''videos'' of
             Some (PList videos) \<Rightarrow>
               if \<not> (1 \<le> length videos \<and> length videos < 5) then
                 Inl (ValueError (InvalidNumberOfVideos (length videos)))
               else
                 (case process_entries 0 videos [] of
                    Inl e \<Rightarrow> Inl e
                  | Inr processed_videos_config \<Rightarrow>
                      (case map_of (dict_set ''videos'' (PList processed_videos_config) config)
                              ''output_video'' of
                         Some (PStr output_video) \<Rightarrow>
                           Inr (with_default ''font_color'' (PStr ''black'')
                                  (\<lambda>v. \<not> is_str_or_tuple v)
                               (with_default ''font_size'' (PInt 30)
                                  (\<lambda>v. \<not> is_number v \<or> number_value v \<le> 0)
                               (with_default ''text_area_color'' (PStr ''white'')
                                  (\<lambda>v. \<not> is_str_or_tuple v)
                               (with_default ''text_area_height'' (PInt 100)
                                  (\<lambda>v. \<not> is_number v \<or> number_value v < 0)
                               (dict_set ''output_video'' (PPath output_video)
                               (dict_set ''videos'' (PList processed_videos_config) config))))))
                       | _ \<Rightarrow> Inl (ValueError OutputVideoMissingOrNotString)))
           | _ \<Rightarrow> Inl (ValueError VideosMissingOrNotList))
      | Decoded _ \<Rightarrow> Inl (ValueError NotADictionary))"

section \<open>process_and_composite_videos\<close>

text \<open>
  The loop over the entries. Its variables are the list \<^verbatim>\<open>combined_vertical_clips\<close>,
  the list \<^verbatim>\<open>loaded_clips\<close> and the loop variable \<^verbatim>\<open>video_clip\<close>, which the code reads
  again after the loop (\<open>None\<close> while it is unbound). The color of the caption band is
  the literal \<^verbatim>\<open>(255, 255, 255)\<close>. Failures inside \<^verbatim>\<open>ColorClip\<close>, \<^verbatim>\<open>TextClip\<close>,
  \<^verbatim>\<open>CompositeVideoClip\<close> and \<^verbatim>\<open>clips_array\<close> are not modelled.
\<close>

fun build_columns ::
  "filesystem \<Rightarrow> int \<Rightarrow> pyval \<Rightarrow> pyval \<Rightarrow> pyval \<Rightarrow> video_config list \<Rightarrow>
   clip list \<Rightarrow> clip list \<Rightarrow> video_file_clip option \<Rightarrow> media_state \<Rightarrow>
   media_state \<times> (error + clip list \<times> clip list \<times> video_file_clip option)" where
  "build_columns fs original_width text_area_height font_size font_color []
     combined_vertical_clips loaded_clips last_clip s =
     (s, Inr (combined_vertical_clips, loaded_clips, last_clip))"
| "build_columns fs original_width text_area_height font_size font_color (video_entry # rest)
     combined_vertical_clips loaded_clips last_clip s =
     (case VideoFileClip fs (path video_entry) s of
        (s', Inl e) \<Rightarrow> (s', Inl e)
      | (s', Inr video_clip) \<Rightarrow>
          (let color_clip =
                 ColorClip (original_width, text_area_height)
                   (PTuple [PInt 255, PInt 255, PInt 255]) False (duration video_clip);
               text_clip =
                 SetDuration
                   (SetPosition
                      (TextClip (description video_entry) font_size font_color ''caption''
                         (real_of_int original_width * 0.9, PNone))
                      ''center'')
                   (duration video_clip);
               text_area_composite = CompositeVideoClip [color_clip, text_clip] True;
               combined_vertical = ClipsArray [[Video video_clip], [text_area_composite]]
           in build_columns fs original_width text_area_height font_size font_color rest
                (combined_vertical_clips @ [combined_vertical])
                (loaded_clips @ [Video video_clip, color_clip, text_clip, text_area_composite])
                (Some video_clip) s'))"

text \<open>
  The column the loop body builds for one entry and its opened clip, written as one
  term: the video above the caption band, the band being the text over the solid
  background.
\<close>

definition column ::
  "int \<Rightarrow> pyval \<Rightarrow> pyval \<Rightarrow> pyval \<Rightarrow> video_config \<Rightarrow> video_file_clip \<Rightarrow> clip" where
  "column original_width text_area_height font_size font_color video_entry video_clip =
     ClipsArray
       [[Video video_clip],
        [CompositeVideoClip
           [ColorClip (original_width, text_area_height)
              (PTuple [PInt 255, PInt 255, PInt 255]) False (duration video_clip),
            SetDuration
              (SetPosition
                 (TextClip (description video_entry) font_size font_color ''caption''
                    (real_of_int original_width * 0.9, PNone))
                 ''center'')
              (duration video_clip)]
           True]]"

text \<open>
  The part of the function after the loop: the guard against an empty list of columns,
  the choice between the single column and the horizontal row, and the call of
  \<^verbatim>\<open>write_videofile\<close> (whose own failures are not modelled).
\<close>

definition write_composite ::
  "string \<Rightarrow> clip list \<Rightarrow> video_file_clip option \<Rightarrow> media_state \<Rightarrow>
   media_state \<times> (error + pyval)" where
  "write_composite output_path combined_vertical_clips last_clip s =
     (if combined_vertical_clips = [] then (s, Inl (ValueError NoCombinedVerticalClips))
      else
        (let final_composite =
               (if length combined_vertical_clips = 1 then combined_vertical_clips ! 0
                else ClipsArray [combined_vertical_clips])
         in case last_clip of
              None \<Rightarrow> (s, Inl (UnboundLocalError ''video_clip''))
            | Some video_clip \<Rightarrow>
                (s\<lparr>written := written s @
                     [\<lparr>composite = final_composite, out_file = output_path,
                       codec = ''libx264'', out_fps = fps video_clip, threads = 4,
                       preset = ''medium''\<rparr>]\<rparr>,
                 Inr PNone)))"

text \<open>
  \<^verbatim>\<open>process_and_composite_videos\<close>. The four parameters are read from the
  configuration first; \<^verbatim>\<open>text_area_color\<close> is read and not used afterwards. Then
  \<^verbatim>\<open>video_configs[0]\<close> is opened for its dimensions and closed again. No clip opened
  in the loop is closed.
\<close>

definition process_and_composite_videos ::
  "filesystem \<Rightarrow> video_config list \<Rightarrow> string \<Rightarrow> (string \<times> pyval) list \<Rightarrow> media_state \<Rightarrow>
   media_state \<times> (error + pyval)" where
  "process_and_composite_videos fs video_configs output_path config s =
     (case dict_item config ''text_area_height'' of
        Inl e \<Rightarrow> (s, Inl e)
      | Inr text_area_height \<Rightarrow>
     (case dict_item config ''text_area_color'' of
        Inl e \<Rightarrow> (s, Inl e)
      | Inr text_area_color \<Rightarrow>
     (case dict_item config ''font_size'' of
        Inl e \<Rightarrow> (s, Inl e)
      | Inr font_size \<Rightarrow>
     (case dict_item config ''font_color'' of
        Inl e \<Rightarrow> (s, Inl e)
      | Inr font_color \<Rightarrow>
     (case video_configs of
        [] \<Rightarrow> (s, Inl IndexError)
      | first # others \<Rightarrow>
     (case VideoFileClip fs (path first) s of
        (s1, Inl e) \<Rightarrow> (s1, Inl e)
      | (s1, Inr first_clip) \<Rightarrow>
     (case build_columns fs (fst (size_v first_clip)) text_area_height font_size font_color
             video_configs [] [] None (close first_clip s1) of
        (s2, Inl e) \<Rightarrow> (s2, Inl e)
      | (s2, Inr (combined_vertical_clips, loaded_clips, last_clip)) \<Rightarrow>
          write_composite output_path combined_vertical_clips last_clip s2)))))))"

section \<open>Concrete inputs\<close>

text \<open>
  A fresh backend state, and a file system with four videos: \<^verbatim>\<open>a.mp4\<close>, \<^verbatim>\<open>b.mp4\<close> with
  another frame height, \<^verbatim>\<open>c.mp4\<close> whose frame rate (30 + 1/2048) and duration
  (2.0625 s) are within the tolerances of those of \<^verbatim>\<open>a.mp4\<close>, and \<^verbatim>\<open>d.mp4\<close> at 25
  frames per second. All frame rates and durations are doubles.
\<close>

definition s0 :: media_state where
  "s0 = \<lparr>next_id = 0, open_readers = [], written = []\<rparr>"

definition fs_demo :: filesystem where
  "fs_demo p =
     (if p = ''a.mp4'' then Media (640, 360) 30 2
      else if p = ''b.mp4'' then Media (640, 480) 30 2
      else if p = ''c.mp4'' then Media (640, 360) (61441 / 2048) (33 / 16)
      else if p = ''d.mp4'' then Media (640, 360) 25 2
      else if p = ''broken.mp4'' then Unreadable
      else Absent)"

definition entry :: "string \<Rightarrow> string \<Rightarrow> video_config" where
  "entry p d = \<lparr>path = p, description = d\<rparr>"

text \<open>
  Two clips that differ in duration only: the doubles \<^verbatim>\<open>0.1\<close> and \<^verbatim>\<open>0.2\<close>, that is
  \<^verbatim>\<open>0x1.999999999999ap-4\<close> and \<^verbatim>\<open>0x1.999999999999ap-3\<close>, in seconds.
\<close>

definition duration_short :: real where
  "duration_short = 3602879701896397 / 2 ^ 55"

definition duration_long :: real where
  "duration_long = 3602879701896397 / 2 ^ 54"

definition fs_boundary :: filesystem where
  "fs_boundary p =
     (if p = ''short.mp4'' then Media (640, 360) 30 duration_short
      else if p = ''long.mp4'' then Media (640, 360) 30 duration_long
      else Absent)"

text \<open>
  Layout parameters as \<^verbatim>\<open>load_config\<close> leaves them, with a red caption band, and a
  decoded configuration file with \<open>n\<close> video entries.
\<close>

definition layout_demo :: "(string \<times> pyval) list" where
  "layout_demo =
     [(''text_area_height'', PInt 100), (''text_area_color'', PStr ''red''),
      (''font_size'', PInt 30), (''font_color'', PStr ''black'')]"

definition entry_demo :: pyval where
  "entry_demo = PDict [(''path'', PStr ''a.mp4''), (''description'', PStr ''A'')]"

definition yaml_demo :: "nat \<Rightarrow> pyval" where
  "yaml_demo n =
     PDict [(''videos'', PList (replicate n entry_demo)),
            (''output_video'', PStr ''out/cmp.mp4'')]"

definition files_demo :: "nat \<Rightarrow> string \<Rightarrow> yaml_file" where
  "files_demo n p = (if p = ''config.yaml'' then Decoded (yaml_demo n) else NoFile)"

text \<open>
  The record the specification calls BaselineProperties, \<open>{size, fps, duration}\<close> of a
  media file, as a Python value.
\<close>

fun baseline_properties :: "media_file \<Rightarrow> pyval" where
  "baseline_properties (Media (w, h) f d) =
     PDict [(''size'', PTuple [PInt w, PInt h]), (''fps'', PFloat f), (''duration'', PFloat d)]"
| "baseline_properties m = PNone"

text \<open>The frame rate of a media file.\<close>

fun media_fps :: "media_file \<Rightarrow> real option" where
  "media_fps (Media sz f d) = Some f"
| "media_fps m = None"

text \<open>
  An opened clip belongs to an entry: it was opened from the entry's path and carries
  the properties of the file there.
\<close>

definition matches :: "filesystem \<Rightarrow> video_config \<Rightarrow> video_file_clip \<Rightarrow> bool" where
  "matches fs e v =
     (filename v = path e \<and> fs (path e) = Media (size_v v) (fps v) (duration v))"

text \<open>
  A decoded video entry passes the checks of the validation loop: it is a dictionary
  with a string under \<^verbatim>\<open>'path'\<close>.
\<close>

fun entry_ok :: "pyval \<Rightarrow> bool" where
  "entry_ok (PDict d) = (case map_of d ''path'' of Some (PStr p) \<Rightarrow> True | _ \<Rightarrow> False)"
| "entry_ok v = False"

section \<open>Rounding to a double\<close>

lemma round_half_even_bound:
  assumes "\<bar>q\<bar> \<le> of_int M"
  shows "\<bar>round_half_even q\<bar> \<le> M"
proof -
  from assms have up: "q \<le> of_int M" and lo: "- of_int M \<le> q" by linarith+
  have f_up: "\<lfloor>q\<rfloor> \<le> M" using up by (simp add: floor_le_iff)
  have f_lo: "- M \<le> \<lfloor>q\<rfloor>" using lo by (simp add: le_floor_iff)
  have top: "q = of_int M" if "\<lfloor>q\<rfloor> = M"
    using that up of_int_floor_le [of q] by linarith
  show ?thesis
  proof (cases "\<lfloor>q\<rfloor> = M")
    case True
    then have "q - of_int \<lfloor>q\<rfloor> = 0" using top by simp
    then show ?thesis using True f_lo by (simp add: round_half_even_def)
  next
    case False
    with f_up have "\<lfloor>q\<rfloor> + 1 \<le> M" by linarith
    then show ?thesis using f_lo by (auto simp: round_half_even_def)
  qed
qed

text \<open>The search stops at the first spacing that is wide enough.\<close>

lemma spacing_search_finds:
  assumes "0 < u" "a < u * 2 ^ i * 2 ^ 53" "i < n"
  shows "\<exists>j\<le>i. spacing_search n u a = Some (u * 2 ^ j) \<and> a < u * 2 ^ j * 2 ^ 53"
  using assms
proof (induction n arbitrary: u i)
  case 0
  then show ?case by simp
next
  case (Suc n)
  show ?case
  proof (cases "a < u * 2 ^ 53")
    case True
    then show ?thesis by (intro exI [of _ 0]) simp
  next
    case False
    with Suc.prems(2) obtain i' where i: "i = Suc i'"
      by (cases i) auto
    from Suc.prems i have "0 < 2 * u" "a < (2 * u) * 2 ^ i' * 2 ^ 53" "i' < n"
      by (simp_all add: mult_ac)
    from Suc.IH [OF this] obtain j where
      j: "j \<le> i'" "spacing_search n (2 * u) a = Some (2 * u * 2 ^ j)"
         "a < 2 * u * 2 ^ j * 2 ^ 53"
      by blast
    show ?thesis
      using j i False by (intro exI [of _ "Suc j"]) (simp add: mult_ac)
  qed
qed

lemma spacing_search_exact:
  assumes "0 < u" "u * 2 ^ j * 2 ^ 52 \<le> a" "a < u * 2 ^ j * 2 ^ 53" "j < n"
  shows "spacing_search n u a = Some (u * 2 ^ j)"
  using assms
proof (induction n arbitrary: u j)
  case 0
  then show ?case by simp
next
  case (Suc n)
  show ?case
  proof (cases j)
    case 0
    with Suc.prems show ?thesis by simp
  next
    case (Suc j')
    have "u * 2 ^ 53 \<le> u * 2 ^ j' * 2 ^ 53"
      using Suc.prems(1) by simp
    also have "\<dots> = u * 2 ^ j * 2 ^ 52"
      using Suc by simp
    finally have no: "\<not> a < u * 2 ^ 53"
      using Suc.prems(2) by linarith
    from Suc.prems Suc have "0 < 2 * u" "(2 * u) * 2 ^ j' * 2 ^ 52 \<le> a"
      "a < (2 * u) * 2 ^ j' * 2 ^ 53" "j' < n"
      by (simp_all add: mult_ac)
    from Suc.IH [OF this] show ?thesis
      using no Suc by (simp add: mult_ac)
  qed
qed

text \<open>
  Rounding does not cross a double: a real whose magnitude is at most the double
  \<open>M * 2 ^ i / 2 ^ 1074\<close> (with a full significand \<open>M\<close>) rounds to a finite double of
  magnitude at most that.
\<close>

lemma round_double_le:
  assumes M: "2 ^ 52 \<le> M" "M < 2 ^ 53"
    and i: "i < 2046"
    and x: "\<bar>x\<bar> \<le> of_int M * (2 ^ i / 2 ^ 1074)"
  shows "\<exists>r. round_double x = Finite r \<and> \<bar>r\<bar> \<le> of_int M * (2 ^ i / 2 ^ 1074)"
proof -
  define u0 :: real where "u0 = 1 / 2 ^ 1074"
  define d :: real where "d = of_int M * (u0 * 2 ^ i)"
  have u0: "0 < u0" by (simp add: u0_def)
  have d_eq: "of_int M * (2 ^ i / 2 ^ 1074) = d"
    by (simp add: d_def u0_def)
  have Mr: "(2::real) ^ 52 \<le> of_int M" "of_int M < (2::real) ^ 53"
    using M by (metis of_int_le_iff of_int_numeral of_int_power,
        metis of_int_less_iff of_int_numeral of_int_power)
  have ui: "0 < u0 * 2 ^ i" using u0 by simp
  have dlt: "d < 2 ^ 53 * (u0 * 2 ^ i)"
    unfolding d_def using Mr(2) ui by (rule mult_strict_right_mono)
  have xd: "\<bar>x\<bar> \<le> d"
    using x unfolding d_eq .
  with dlt have lt: "\<bar>x\<bar> < u0 * 2 ^ i * 2 ^ 53"
    by (simp add: mult_ac)
  from spacing_search_finds [OF u0 lt i] obtain j where
    j: "j \<le> i" and sp: "spacing \<bar>x\<bar> = Some (u0 * 2 ^ j)"
    and xv: "\<bar>x\<bar> < u0 * 2 ^ j * 2 ^ 53"
    by (auto simp: spacing_def u0_def)
  define v where "v = u0 * 2 ^ j"
  have v: "0 < v" using u0 by (simp add: v_def)
  define m where "m = round_half_even (x / v)"
  have mv: "\<bar>of_int m * v\<bar> = \<bar>of_int m :: real\<bar> * v"
    using v by (simp add: abs_mult)
  have bound: "\<bar>of_int m * v\<bar> \<le> d"
  proof (cases "j = i")
    case True
    have "\<bar>x\<bar> \<le> of_int M * v"
      using xd True by (simp add: d_def v_def)
    then have "\<bar>x\<bar> / v \<le> of_int M"
      using v by (simp add: pos_divide_le_eq)
    then have "\<bar>x / v\<bar> \<le> of_int M"
      using v by simp
    then have "\<bar>m\<bar> \<le> M"
      unfolding m_def by (rule round_half_even_bound)
    then have "\<bar>of_int m :: real\<bar> \<le> of_int M"
      by (metis of_int_abs of_int_le_iff)
    then have "\<bar>of_int m :: real\<bar> * v \<le> of_int M * v"
      using v by (simp add: mult_right_mono)
    moreover have "d = of_int M * v"
      using True by (simp add: d_def v_def)
    ultimately show ?thesis
      unfolding mv by simp
  next
    case False
    with j have k: "Suc j \<le> i"
      by simp
    have "\<bar>x\<bar> \<le> of_int (2 ^ 53) * v"
      using xv by (simp add: v_def mult_ac)
    then have "\<bar>x\<bar> / v \<le> of_int (2 ^ 53)"
      using v by (simp only: pos_divide_le_eq)
    then have "\<bar>x / v\<bar> \<le> of_int (2 ^ 53)"
      using v by simp
    then have "\<bar>m\<bar> \<le> 2 ^ 53"
      unfolding m_def by (rule round_half_even_bound)
    then have "real_of_int \<bar>m\<bar> \<le> real_of_int (2 ^ 53)"
      by (simp only: of_int_le_iff)
    then have "\<bar>of_int m :: real\<bar> \<le> 2 ^ 53"
      by simp
    then have "\<bar>of_int m :: real\<bar> * v \<le> 2 ^ 53 * v"
      using v by (simp add: mult_right_mono)
    also have "\<dots> = 2 ^ 52 * (u0 * 2 ^ Suc j)"
      by (simp add: v_def)
    also have "\<dots> \<le> 2 ^ 52 * (u0 * 2 ^ i)"
    proof -
      have "(2::real) ^ Suc j \<le> 2 ^ i"
        using k by (intro power_increasing) simp_all
      then have "u0 * 2 ^ Suc j \<le> u0 * 2 ^ i"
        using u0 by (simp only: mult_le_cancel_left_pos)
      then show ?thesis
        by (simp only: mult_le_cancel_left_pos zero_less_power zero_less_numeral)
    qed
    also have "\<dots> \<le> d"
      unfolding d_def using Mr(1) ui by (simp add: mult_right_mono)
    finally show ?thesis
      unfolding mv .
  qed
  have "(2::real) ^ i \<le> 2 ^ 2045"
    using i by (intro power_increasing) simp_all
  then have "u0 * 2 ^ i \<le> u0 * 2 ^ 2045"
    using u0 by simp
  then have "2 ^ 53 * (u0 * 2 ^ i) \<le> 2 ^ 53 * (u0 * 2 ^ 2045)"
    by simp
  also have "\<dots> = 2 ^ 1024"
    by (simp add: u0_def)
  finally have "d < 2 ^ 1024"
    using dlt by linarith
  with bound have fin: "\<not> 2 ^ 1024 \<le> \<bar>of_int m * v\<bar>" by linarith
  have "round_double x = Finite (of_int m * v)"
    using sp fin by (simp add: round_double_def v_def m_def)
  with bound d_eq show ?thesis by simp
qed

text \<open>The two tolerances, with their significands and exponents.\<close>

lemma float_0_1_form: "float_0_1 = of_int 7205759403792794 * (2 ^ 1018 / 2 ^ 1074)"
  by (simp add: float_0_1_def)

lemma float_0_001_form: "float_0_001 = of_int 4611686018427388 * (2 ^ 1012 / 2 ^ 1074)"
  by (simp add: float_0_001_def)

lemma float_0_1_above: "1 / 10 < float_0_1"
  by (simp add: float_0_1_def)

lemma float_0_001_above: "1 / 1000 < float_0_001"
  by (simp add: float_0_001_def)

text \<open>
  A difference whose exact magnitude is at most the tolerance passes the test of the
  code; so a difference that fails the test exceeds the tolerance.
\<close>

lemma within_duration_tolerance:
  assumes "\<bar>a - b\<bar> \<le> float_0_1"
  shows "\<not> float_gt (float_abs (float_sub a b)) float_0_1"
proof -
  from assms have "\<bar>a - b\<bar> \<le> of_int 7205759403792794 * (2 ^ 1018 / 2 ^ 1074)"
    unfolding float_0_1_form .
  from round_double_le [OF _ _ _ this] obtain r where
    "round_double (a - b) = Finite r" "\<bar>r\<bar> \<le> float_0_1"
    unfolding float_0_1_form by auto
  then show ?thesis by (simp add: float_sub_def)
qed

lemma within_fps_tolerance:
  assumes "\<bar>a - b\<bar> \<le> float_0_001"
  shows "\<not> float_gt (float_abs (float_sub a b)) float_0_001"
proof -
  from assms have "\<bar>a - b\<bar> \<le> of_int 4611686018427388 * (2 ^ 1012 / 2 ^ 1074)"
    unfolding float_0_001_form .
  from round_double_le [OF _ _ _ this] obtain r where
    "round_double (a - b) = Finite r" "\<bar>r\<bar> \<le> float_0_001"
    unfolding float_0_001_form by auto
  then show ?thesis by (simp add: float_sub_def)
qed

text \<open>
  Evaluating the rounding at a given real: with the spacing \<open>u\<close> of its binade supplied,
  the result is the multiple \<open>m * u\<close> nearest to it.
\<close>

lemma round_double_normal:
  fixes x u :: real
  assumes j: "j < 2046"
    and u: "u = 2 ^ j / 2 ^ 1074"
    and lo: "u * 2 ^ 52 \<le> \<bar>x\<bar>"
    and hi: "\<bar>x\<bar> < u * 2 ^ 53"
    and m: "round_half_even (x / u) = m"
    and fin: "\<bar>of_int m * u\<bar> < 2 ^ 1024"
  shows "round_double x = Finite (of_int m * u)"
proof -
  have e: "1 / 2 ^ 1074 * 2 ^ j = u"
    by (simp add: u)
  have "spacing_search 2046 (1 / 2 ^ 1074) \<bar>x\<bar> = Some (1 / 2 ^ 1074 * 2 ^ j)"
    using lo hi j unfolding e [symmetric]
    by (intro spacing_search_exact) simp_all
  then have "spacing \<bar>x\<bar> = Some u"
    unfolding spacing_def e .
  then show ?thesis
    using fin m by (simp add: round_double_def)
qed

text \<open>The two tolerances are the decimal literals of the source, rounded.\<close>

lemma literal_0_1: "round_double (1 / 10) = Finite float_0_1"
proof -
  have "round_double (1 / 10) = Finite (of_int 7205759403792794 * (1 / 2 ^ 56))"
    by (rule round_double_normal [where j = 1018])
      (simp_all add: round_half_even_def)
  then show ?thesis
    by (simp add: float_0_1_def)
qed

lemma literal_0_001: "round_double (1 / 1000) = Finite float_0_001"
proof -
  have "round_double (1 / 1000) = Finite (of_int 4611686018427388 * (1 / 2 ^ 62))"
    by (rule round_double_normal [where j = 1012])
      (simp_all add: round_half_even_def)
  then show ?thesis
    by (simp add: float_0_001_def)
qed

text \<open>
  The durations of the two boundary clips are doubles, and their difference in double
  arithmetic is the double \<^verbatim>\<open>0.1\<close>.
\<close>

lemma duration_short_is_double: "round_double duration_short = Finite duration_short"
proof -
  have "round_double (7205759403792794 / 2 ^ 56) =
        Finite (of_int 7205759403792794 * (1 / 2 ^ 56))"
    by (rule round_double_normal [where j = 1018])
      (simp_all add: round_half_even_def)
  then show ?thesis
    by (simp add: duration_short_def)
qed

lemma duration_long_is_double: "round_double duration_long = Finite duration_long"
proof -
  have "round_double (7205759403792794 / 2 ^ 55) =
        Finite (of_int 7205759403792794 * (1 / 2 ^ 55))"
    by (rule round_double_normal [where j = 1019])
      (simp_all add: round_half_even_def)
  then show ?thesis
    by (simp add: duration_long_def)
qed

lemma boundary_subtraction: "float_sub duration_long duration_short = Finite float_0_1"
proof -
  have x: "duration_long - duration_short = 7205759403792794 / 2 ^ 56"
    by (simp add: duration_long_def duration_short_def)
  have "round_double (7205759403792794 / 2 ^ 56) =
        Finite (of_int 7205759403792794 * (1 / 2 ^ 56))"
    by (rule round_double_normal [where j = 1018])
      (simp_all add: round_half_even_def)
  then show ?thesis
    unfolding float_sub_def x by (simp add: float_0_1_def)
qed

text \<open>A frame rate of 25 against one of 30 fails the frame rate test.\<close>

lemma fps_25_30_fails: "float_gt (float_abs (float_sub 25 30)) float_0_001"
proof -
  have "round_double (- 5) = Finite (of_int (- 5629499534213120) * (1 / 2 ^ 50))"
    by (rule round_double_normal [where j = 1024])
      (simp_all add: round_half_even_def)
  then show ?thesis
    by (simp add: float_sub_def float_0_001_def)
qed

lemma fails_comparison_disagrees:
  assumes "fails_comparison b m"
  shows "disagrees b m"
proof (cases b)
  case (Media bsz bf bd)
  show ?thesis
  proof (cases m)
    case (Media sz f d)
    have fps: "\<bar>f - bf\<bar> > 1 / 1000"
      if "float_gt (float_abs (float_sub f bf)) float_0_001"
      using that within_fps_tolerance [of f bf] float_0_001_above by linarith
    have dur: "\<bar>d - bd\<bar> > 1 / 10"
      if "float_gt (float_abs (float_sub d bd)) float_0_1"
      using that within_duration_tolerance [of d bd] float_0_1_above by linarith
    from assms fps dur show ?thesis
      unfolding \<open>b = Media bsz bf bd\<close> Media by auto
  qed (use assms \<open>b = Media bsz bf bd\<close> in simp_all)
qed (use assms in simp_all)

section \<open>The comparison loop of verify_videos\<close>

lemma check_subsequent_mismatch:
  assumes "list_all (opens fs) rest"
  shows "raises_property_mismatch (snd (snd (check_subsequent fs bp bsz bf bd rest clips s))) \<longleftrightarrow>
         list_ex (\<lambda>e. fails_comparison (Media bsz bf bd) (fs (path e))) rest"
  using assms
proof (induction rest arbitrary: clips s)
  case Nil
  then show ?case by simp
next
  case (Cons e rest)
  from Cons.prems obtain sz f d where m: "fs (path e) = Media sz f d"
    by (cases "fs (path e)") (simp_all add: opens_def)
  from Cons.prems have r: "list_all (opens fs) rest" by simp
  show ?case
    using Cons.IH [OF r] m
    by (simp add: path_exists_def VideoFileClip_def)
qed

text \<open>
  When every later file opens and passes the three tests, the loop ends without an
  exception; and when the loop ends without an exception, every later file opened and
  passed them.
\<close>

lemma check_subsequent_pass:
  assumes "list_all (opens fs) rest"
    and "\<not> list_ex (\<lambda>e. fails_comparison (Media bsz bf bd) (fs (path e))) rest"
  shows "snd (snd (check_subsequent fs bp bsz bf bd rest clips s)) = Inr ()"
  using assms
proof (induction rest arbitrary: clips s)
  case Nil
  then show ?case by simp
next
  case (Cons e rest)
  from Cons.prems obtain sz f d where m: "fs (path e) = Media sz f d"
    by (cases "fs (path e)") (simp_all add: opens_def)
  from Cons.prems have r: "list_all (opens fs) rest"
    and a: "\<not> list_ex (\<lambda>e. fails_comparison (Media bsz bf bd) (fs (path e))) rest"
    and here: "\<not> fails_comparison (Media bsz bf bd) (Media sz f d)"
    by (simp_all add: m)
  show ?case
    using Cons.IH [OF r a] m here
    by (simp add: path_exists_def VideoFileClip_def)
qed

lemma check_subsequent_success:
  assumes "snd (snd (check_subsequent fs bp bsz bf bd rest clips s)) = Inr ()"
  shows "list_all (opens fs) rest
         \<and> \<not> list_ex (\<lambda>e. fails_comparison (Media bsz bf bd) (fs (path e))) rest"
  using assms
proof (induction rest arbitrary: clips s)
  case Nil
  then show ?case by simp
next
  case (Cons e rest)
  show ?case
  proof (cases "fs (path e)")
    case Absent
    with Cons.prems show ?thesis by (simp add: path_exists_def)
  next
    case Unreadable
    with Cons.prems show ?thesis by (simp add: path_exists_def VideoFileClip_def)
  next
    case (Media sz f d)
    define c where
      "c = \<lparr>clip_id = next_id s, filename = path e, size_v = sz, fps = f, duration = d\<rparr>"
    define s' where
      "s' = s\<lparr>next_id := Suc (next_id s), open_readers := open_readers s @ [next_id s]\<rparr>"
    have here: "\<not> fails_comparison (Media bsz bf bd) (Media sz f d)"
      using Cons.prems Media
      by (simp add: path_exists_def VideoFileClip_def split: if_splits)
    then have "snd (snd (check_subsequent fs bp bsz bf bd rest (clips @ [c]) s')) = Inr ()"
      using Cons.prems Media
      by (auto simp add: path_exists_def VideoFileClip_def c_def s'_def split: if_splits)
    from Cons.IH [OF this] show ?thesis
      using here Media by (simp add: opens_def)
  qed
qed

lemma snd_verify_videos:
  "snd (verify_videos fs (first # rest) s) =
     (case snd (snd (verify_try fs first rest s)) of Inl e \<Rightarrow> Inl e | Inr u \<Rightarrow> Inr PNone)"
  by (simp split: prod.splits sum.splits)

lemma verify_try_opened:
  assumes "fs (path first) = Media sz f d"
  shows "snd (snd (verify_try fs first rest s)) =
         snd (snd (check_subsequent fs (path first) sz f d rest
                     [\<lparr>clip_id = next_id s, filename = path first, size_v = sz, fps = f,
                        duration = d\<rparr>]
                     (s\<lparr>next_id := Suc (next_id s),
                        open_readers := open_readers s @ [next_id s]\<rparr>)))"
  using assms by (simp add: verify_try_def path_exists_def VideoFileClip_def)

text \<open>What a successful verification establishes.\<close>

lemma verify_success:
  assumes "snd (verify_videos fs video_configs s) = Inr PNone"
  shows "video_configs \<noteq> []
         \<and> list_all (opens fs) video_configs
         \<and> \<not> list_ex (\<lambda>e. fails_comparison (fs (path (hd video_configs))) (fs (path e)))
               (tl video_configs)"
proof (cases video_configs)
  case Nil
  with assms show ?thesis by simp
next
  case (Cons first rest)
  from assms have "snd (verify_videos fs (first # rest) s) = Inr PNone"
    unfolding Cons .
  then have ok: "snd (snd (verify_try fs first rest s)) = Inr ()"
    unfolding snd_verify_videos
    by (cases "snd (snd (verify_try fs first rest s))") simp_all
  show ?thesis
  proof (cases "fs (path first)")
    case Absent
    with ok show ?thesis by (simp add: verify_try_def path_exists_def)
  next
    case Unreadable
    with ok show ?thesis by (simp add: verify_try_def path_exists_def VideoFileClip_def)
  next
    case (Media sz f d)
    from ok have "snd (snd (check_subsequent fs (path first) sz f d rest
                     [\<lparr>clip_id = next_id s, filename = path first, size_v = sz, fps = f,
                        duration = d\<rparr>]
                     (s\<lparr>next_id := Suc (next_id s),
                        open_readers := open_readers s @ [next_id s]\<rparr>))) = Inr ()"
      unfolding verify_try_opened [of fs first, OF Media] .
    from check_subsequent_success [OF this] show ?thesis
      using Cons Media by (simp add: opens_def)
  qed
qed

text \<open>
  C1, as the code has it. When every file exists and opens, \<^verbatim>\<open>verify_videos\<close> raises
  one of the three property mismatch errors exactly when some entry after the first has
  a frame size different from the first entry's, or a different frame rate whose
  difference from it, computed in double arithmetic, is greater than the double \<^verbatim>\<open>0.001\<close>,
  or a duration whose difference from it, computed in double arithmetic, is greater than
  the double \<^verbatim>\<open>0.1\<close>. Whenever it raises, some such entry differs in size, or by more
  than 0.001 in frame rate, or by more than 0.1 seconds in duration; so it does not raise
  when every difference is within those tolerances. (The empty list raises another
  \<^verbatim>\<open>ValueError\<close>, which is no mismatch.)
\<close>

theorem verify_raises_iff_comparison_fails:
  assumes "list_all (opens fs) video_configs"
  shows "(raises_property_mismatch (snd (verify_videos fs video_configs s)) \<longleftrightarrow>
            (case video_configs of
               [] \<Rightarrow> False
             | first # rest \<Rightarrow>
                 list_ex (\<lambda>e. fails_comparison (fs (path first)) (fs (path e))) rest))
         \<and> (raises_property_mismatch (snd (verify_videos fs video_configs s)) \<longrightarrow>
            (case video_configs of
               [] \<Rightarrow> False
             | first # rest \<Rightarrow> list_ex (\<lambda>e. disagrees (fs (path first)) (fs (path e))) rest))"
proof (cases video_configs)
  case Nil
  then show ?thesis by simp
next
  case (Cons first rest)
  from assms Cons obtain sz f d where m: "fs (path first) = Media sz f d"
    by (cases "fs (path first)") (simp_all add: opens_def)
  from assms Cons have r: "list_all (opens fs) rest" by simp
  have "raises_property_mismatch (snd (verify_videos fs (first # rest) s)) \<longleftrightarrow>
        raises_property_mismatch (snd (snd (verify_try fs first rest s)))"
    unfolding snd_verify_videos
    by (cases "snd (snd (verify_try fs first rest s))") simp_all
  also have "\<dots> \<longleftrightarrow> list_ex (\<lambda>e. fails_comparison (Media sz f d) (fs (path e))) rest"
    unfolding verify_try_opened [of fs first, OF m] by (rule check_subsequent_mismatch [OF r])
  finally have iff: "raises_property_mismatch (snd (verify_videos fs (first # rest) s)) \<longleftrightarrow>
        list_ex (\<lambda>e. fails_comparison (Media sz f d) (fs (path e))) rest" .
  have "list_ex (\<lambda>e. disagrees (Media sz f d) (fs (path e))) rest"
    if "list_ex (\<lambda>e. fails_comparison (Media sz f d) (fs (path e))) rest"
    using that fails_comparison_disagrees by (auto simp: list_ex_iff)
  with iff show ?thesis
    using Cons m by simp
qed

theorem verify_raises_iff_comparison_fails_witness:
  "list_all (opens fs_demo) [entry ''a.mp4'' ''A'', entry ''c.mp4'' ''C'', entry ''b.mp4'' ''B'']
   \<and> raises_property_mismatch
       (snd (verify_videos fs_demo
               [entry ''a.mp4'' ''A'', entry ''c.mp4'' ''C'', entry ''b.mp4'' ''B''] s0))
   \<and> list_all (opens fs_demo) [entry ''a.mp4'' ''A'', entry ''c.mp4'' ''C'']
   \<and> \<not> raises_property_mismatch
         (snd (verify_videos fs_demo [entry ''a.mp4'' ''A'', entry ''c.mp4'' ''C''] s0))
   \<and> list_all (opens fs_demo) [entry ''a.mp4'' ''A'', entry ''d.mp4'' ''D'']
   \<and> raises_property_mismatch
       (snd (verify_videos fs_demo [entry ''a.mp4'' ''A'', entry ''d.mp4'' ''D''] s0))"
proof -
  have h1: "list_all (opens fs_demo)
              [entry ''a.mp4'' ''A'', entry ''c.mp4'' ''C'', entry ''b.mp4'' ''B'']"
    by (simp add: opens_def fs_demo_def entry_def)
  have h2: "list_all (opens fs_demo) [entry ''a.mp4'' ''A'', entry ''c.mp4'' ''C'']"
    by (simp add: opens_def fs_demo_def entry_def)
  have h3: "list_all (opens fs_demo) [entry ''a.mp4'' ''A'', entry ''d.mp4'' ''D'']"
    by (simp add: opens_def fs_demo_def entry_def)
  have f: "\<not> float_gt (float_abs (float_sub (61441 / 2048) 30)) float_0_001"
    by (rule within_fps_tolerance) (simp add: float_0_001_def)
  have d: "\<not> float_gt (float_abs (float_sub (33 / 16) 2)) float_0_1"
    by (rule within_duration_tolerance) (simp add: float_0_1_def)
  show ?thesis
    using h1 h2 h3 verify_raises_iff_comparison_fails [OF h1, of s0]
      verify_raises_iff_comparison_fails [OF h2, of s0]
      verify_raises_iff_comparison_fails [OF h3, of s0] f d fps_25_30_fails
    by (simp add: fs_demo_def entry_def)
qed

text \<open>
  The claim as stated fails at the tolerance itself. The durations of \<^verbatim>\<open>short.mp4\<close>
  and \<^verbatim>\<open>long.mp4\<close> are the doubles \<^verbatim>\<open>0.1\<close> and \<^verbatim>\<open>0.2\<close>; they differ by more than 0.1
  seconds (by the double \<^verbatim>\<open>0.1\<close>, which is greater than one tenth), the subtraction
  yields the double \<^verbatim>\<open>0.1\<close>, the test \<^verbatim>\<open>> 0.1\<close> is false, and nothing is raised.
\<close>

theorem verify_tolerance_boundary_counterexample:
  "list_all (opens fs_boundary) [entry ''short.mp4'' ''S'', entry ''long.mp4'' ''L'']
   \<and> \<bar>duration_long - duration_short\<bar> > 0.1
   \<and> float_sub duration_long duration_short = Finite float_0_1
   \<and> disagrees (fs_boundary ''short.mp4'') (fs_boundary ''long.mp4'')
   \<and> snd (verify_videos fs_boundary [entry ''short.mp4'' ''S'', entry ''long.mp4'' ''L''] s0)
       = Inr PNone"
proof -
  have d: "\<not> float_gt (float_abs (float_sub duration_long duration_short)) float_0_1"
    by (rule within_duration_tolerance)
      (simp add: float_0_1_def duration_long_def duration_short_def)
  have gt: "\<bar>duration_long - duration_short\<bar> > 0.1"
    by (simp add: duration_long_def duration_short_def)
  have "snd (verify_videos fs_boundary
               [entry ''short.mp4'' ''S'', entry ''long.mp4'' ''L''] s0) = Inr PNone"
    unfolding snd_verify_videos
    using d by (simp add: fs_boundary_def entry_def verify_try_def path_exists_def
        VideoFileClip_def)
  then show ?thesis
    using gt boundary_subtraction by (simp add: fs_boundary_def opens_def entry_def)
qed

text \<open>
  C10. For a single entry whose file exists and opens, the comparison loop has nothing
  to range over: \<^verbatim>\<open>verify_videos\<close> returns \<^verbatim>\<open>None\<close> and raises no property mismatch,
  whatever the size, frame rate and duration of the clip are.
\<close>

theorem verify_single_entry:
  assumes "opens fs e"
  shows "snd (verify_videos fs [e] s) = Inr PNone
         \<and> \<not> raises_property_mismatch (snd (verify_videos fs [e] s))"
proof -
  from assms obtain sz f d where m: "fs (path e) = Media sz f d"
    by (cases "fs (path e)") (simp_all add: opens_def)
  have "snd (snd (verify_try fs e [] s)) = Inr ()"
    using m by (simp add: verify_try_def path_exists_def VideoFileClip_def)
  then have "snd (verify_videos fs [e] s) = Inr PNone"
    unfolding snd_verify_videos by simp
  then show ?thesis by simp
qed

theorem verify_single_entry_witness:
  "opens fs_demo (entry ''b.mp4'' ''B'')
   \<and> snd (verify_videos fs_demo [entry ''b.mp4'' ''B''] s0) = Inr PNone"
proof -
  have h: "opens fs_demo (entry ''b.mp4'' ''B'')"
    by (simp add: opens_def fs_demo_def entry_def)
  show ?thesis
    using h verify_single_entry [OF h, of s0] by simp
qed

text \<open>
  C4, as the code has it. For every non-empty list whose files exist and open and whose
  later clips agree with the first entry's size, frame rate and duration within the
  tolerances, \<^verbatim>\<open>verify_videos\<close> raises nothing and returns \<^verbatim>\<open>None\<close>: the baseline is
  read from the first entry's clip and used in the loop only, no record of it is returned.
\<close>

theorem verify_returns_none:
  assumes "list_all (opens fs) (first # rest)"
    and "\<not> list_ex (\<lambda>e. disagrees (fs (path first)) (fs (path e))) rest"
  shows "snd (verify_videos fs (first # rest) s) = Inr PNone"
proof -
  from assms(1) obtain sz f d where m: "fs (path first) = Media sz f d"
    by (cases "fs (path first)") (simp_all add: opens_def)
  from assms(1) have r: "list_all (opens fs) rest" by simp
  from assms(2) have "\<not> list_ex (\<lambda>e. fails_comparison (Media sz f d) (fs (path e))) rest"
    using fails_comparison_disagrees unfolding m by (auto simp: list_ex_iff)
  from check_subsequent_pass [OF r this]
  have "snd (snd (verify_try fs first rest s)) = Inr ()"
    unfolding verify_try_opened [of fs first, OF m] .
  then show ?thesis
    unfolding snd_verify_videos by simp
qed

theorem verify_returns_none_witness:
  "list_all (opens fs_demo) [entry ''a.mp4'' ''A'', entry ''c.mp4'' ''C'']
   \<and> \<not> list_ex (\<lambda>e. disagrees (fs_demo (path (entry ''a.mp4'' ''A''))) (fs_demo (path e)))
         [entry ''c.mp4'' ''C'']
   \<and> snd (verify_videos fs_demo [entry ''a.mp4'' ''A'', entry ''c.mp4'' ''C''] s0) = Inr PNone"
proof -
  have h1: "list_all (opens fs_demo) [entry ''a.mp4'' ''A'', entry ''c.mp4'' ''C'']"
    by (simp add: opens_def fs_demo_def entry_def)
  have h2: "\<not> list_ex (\<lambda>e. disagrees (fs_demo (path (entry ''a.mp4'' ''A''))) (fs_demo (path e)))
              [entry ''c.mp4'' ''C'']"
    by (simp add: fs_demo_def entry_def)
  show ?thesis
    using h1 h2 verify_returns_none [OF h1 h2, of s0] by simp
qed

text \<open>
  The claim as stated fails: on two clips with identical properties the value returned
  is not the record of the first clip's properties.
\<close>

theorem verify_returns_baseline_counterexample:
  "snd (verify_videos fs_demo [entry ''a.mp4'' ''A'', entry ''a.mp4'' ''B''] s0)
     \<noteq> Inr (baseline_properties (fs_demo ''a.mp4''))"
proof -
  have d: "\<not> float_gt (float_abs (float_sub 2 2)) float_0_1"
    by (rule within_duration_tolerance) (simp add: float_0_1_def)
  show ?thesis
    unfolding snd_verify_videos
    using d by (simp add: fs_demo_def entry_def verify_try_def path_exists_def
        VideoFileClip_def)
qed

text \<open>
  C2. The clip that fails a comparison was opened but is not yet in \<^verbatim>\<open>clips\<close>, so
  neither cleanup loop closes it: after the size mismatch of \<^verbatim>\<open>b.mp4\<close> its reader
  (object 1) is still open.
\<close>

theorem verify_leaks_mismatching_clip:
  "verify_videos fs_demo [entry ''a.mp4'' ''A'', entry ''b.mp4'' ''B''] s0 =
     (\<lparr>next_id = 2, open_readers = [1], written = []\<rparr>,
      Inl (ValueError (VideoSizeMismatch ''b.mp4'' (640, 480) (640, 360) ''a.mp4'')))"
  by (simp add: fs_demo_def entry_def s0_def verify_try_def path_exists_def VideoFileClip_def
      reader_open_def close_def)

section \<open>load_config: the number of video entries\<close>

lemma map_of_dict_set:
  "map_of (dict_set k v d) k' = (if k' = k then Some v else map_of d k')"
  by (induction d) auto

lemma process_entries_no_count_error:
  "process_entries i videos processed \<noteq> Inl (ValueError (InvalidNumberOfVideos n))"
proof (induction videos arbitrary: i processed)
  case Nil
  then show ?case by simp
next
  case (Cons v videos)
  show ?case
  proof (cases v)
    case (PDict d)
    show ?thesis
    proof (cases "map_of d ''path''")
      case None
      with PDict show ?thesis by simp
    next
      case (Some q)
      with PDict Cons.IH show ?thesis by (cases q) simp_all
    qed
  qed simp_all
qed

lemma process_entries_ok:
  assumes "list_all entry_ok videos"
  shows "\<exists>r. process_entries i videos processed = Inr r"
  using assms
proof (induction videos arbitrary: i processed)
  case Nil
  then show ?case by simp
next
  case (Cons v videos)
  from Cons.prems have ok: "entry_ok v" and rest: "list_all entry_ok videos" by simp_all
  from ok obtain d where vd: "v = PDict d" by (cases v) simp_all
  from ok vd obtain p where pd: "map_of d ''path'' = Some (PStr p)"
    by (auto split: option.splits pyval.splits)
  show ?case
    using Cons.IH [OF rest] vd pd by simp
qed

text \<open>
  C6, as the code has it. For a decoded dictionary with a list under \<^verbatim>\<open>'videos'\<close>,
  \<^verbatim>\<open>load_config\<close> raises the error about the number of videos exactly when that number
  is outside \<open>[1, 5)\<close>; and when the entries and the output path are well formed, it
  fails exactly then. So 1, 2, 3 and 4 entries are accepted.
\<close>

theorem load_config_count:
  assumes "files yaml_path = Decoded (PDict config)"
    and "map_of config ''videos'' = Some (PList videos)"
  shows "(load_config files yaml_path = Inl (ValueError (InvalidNumberOfVideos (length videos)))
            \<longleftrightarrow> \<not> (1 \<le> length videos \<and> length videos < 5))
         \<and> (list_all entry_ok videos \<and> map_of config ''output_video'' = Some (PStr output_video)
              \<longrightarrow> (isl (load_config files yaml_path) \<longleftrightarrow>
                     \<not> (1 \<le> length videos \<and> length videos < 5)))"
proof (cases "1 \<le> length videos \<and> length videos < 5")
  case False
  then show ?thesis
    using assms by (simp add: load_config_def)
next
  case True
  have a: "load_config files yaml_path \<noteq> Inl (ValueError (InvalidNumberOfVideos (length videos)))"
  proof (cases "process_entries 0 videos []")
    case (Inl e)
    with process_entries_no_count_error [of 0 videos "[]" "length videos"] True assms
    show ?thesis by (simp add: load_config_def)
  next
    case (Inr r)
    with True assms show ?thesis
      by (simp add: load_config_def map_of_dict_set split: option.splits pyval.splits)
  qed
  have b: "\<not> isl (load_config files yaml_path)"
    if "list_all entry_ok videos" "map_of config ''output_video'' = Some (PStr output_video)"
  proof -
    from process_entries_ok [OF that(1), of 0 "[]"] obtain r
      where "process_entries 0 videos [] = Inr r" by blast
    with True assms that(2) show ?thesis
      by (simp add: load_config_def map_of_dict_set)
  qed
  from a b True show ?thesis by blast
qed

theorem load_config_count_witness:
  "load_config (files_demo 4) ''config.yaml'' \<noteq> Inl (ValueError (InvalidNumberOfVideos 4))
   \<and> \<not> isl (load_config (files_demo 4) ''config.yaml'')
   \<and> load_config (files_demo 5) ''config.yaml'' = Inl (ValueError (InvalidNumberOfVideos 5))"
proof -
  have f: "files_demo n ''config.yaml'' =
             Decoded (PDict [(''videos'', PList (replicate n entry_demo)),
                             (''output_video'', PStr ''out/cmp.mp4'')])" for n
    by (simp add: files_demo_def yaml_demo_def entry_demo_def)
  have v: "map_of [(''videos'', PList (replicate n entry_demo)),
                   (''output_video'', PStr ''out/cmp.mp4'')] ''videos'' =
             Some (PList (replicate n entry_demo))" for n
    by simp
  have ok: "list_all entry_ok (replicate n entry_demo)" for n
    by (simp add: list_all_length entry_demo_def)
  show ?thesis
    using load_config_count [of "files_demo 4" "''config.yaml''" _ _ "''out/cmp.mp4''",
        OF f [of 4] v [of 4]]
      load_config_count [of "files_demo 5" "''config.yaml''" _ _ "''out/cmp.mp4''",
        OF f [of 5] v [of 5]] ok [of 4]
    by simp
qed

text \<open>The claim as stated fails: a configuration with four entries is accepted.\<close>

theorem load_config_four_entries_counterexample:
  "\<not> isl (load_config (files_demo 4) ''config.yaml'')"
  by (simp add: load_config_def files_demo_def yaml_demo_def entry_demo_def numeral_eq_Suc)

section \<open>process_and_composite_videos\<close>

lemma build_columns_ok:
  assumes "list_all (opens fs) es"
  shows "\<exists>vs loaded' s'.
           build_columns fs w h fsz fc es cvc loaded lc s =
             (s', Inr (cvc @ map2 (column w h fsz fc) es vs, loaded',
                       (if es = [] then lc else Some (last vs))))
           \<and> list_all2 (matches fs) es vs
           \<and> written s' = written s
           \<and> open_readers s' = open_readers s @ map clip_id vs"
  using assms
proof (induction es arbitrary: cvc loaded lc s)
  case Nil
  then show ?case by simp
next
  case (Cons e es)
  from Cons.prems obtain sz f d where m: "fs (path e) = Media sz f d"
    by (cases "fs (path e)") (simp_all add: opens_def)
  from Cons.prems have r: "list_all (opens fs) es" by simp
  define v where "v = \<lparr>clip_id = next_id s, filename = path e, size_v = sz, fps = f, duration = d\<rparr>"
  define s1 where "s1 = s\<lparr>next_id := Suc (next_id s), open_readers := open_readers s @ [next_id s]\<rparr>"
  have op: "VideoFileClip fs (path e) s = (s1, Inr v)"
    using m by (simp add: VideoFileClip_def v_def s1_def)
  have cid: "clip_id v = next_id s"
    by (simp add: v_def)
  have mv: "matches fs e v"
    using m by (simp add: matches_def v_def)
  have step: "build_columns fs w h fsz fc (e # es) cvc loaded lc s =
              build_columns fs w h fsz fc es (cvc @ [column w h fsz fc e v])
                (loaded @ [Video v,
                   ColorClip (w, h) (PTuple [PInt 255, PInt 255, PInt 255]) False (duration v),
                   SetDuration (SetPosition (TextClip (description e) fsz fc ''caption''
                      (real_of_int w * 0.9, PNone)) ''center'') (duration v),
                   CompositeVideoClip
                     [ColorClip (w, h) (PTuple [PInt 255, PInt 255, PInt 255]) False (duration v),
                      SetDuration (SetPosition (TextClip (description e) fsz fc ''caption''
                        (real_of_int w * 0.9, PNone)) ''center'') (duration v)] True])
                (Some v) s1"
    by (simp add: op column_def Let_def)
  from Cons.IH [OF r, of "cvc @ [column w h fsz fc e v]" _ "Some v" s1]
  obtain vs loaded' s' where
    ih: "build_columns fs w h fsz fc es (cvc @ [column w h fsz fc e v])
           (loaded @ [Video v,
                   ColorClip (w, h) (PTuple [PInt 255, PInt 255, PInt 255]) False (duration v),
                   SetDuration (SetPosition (TextClip (description e) fsz fc ''caption''
                      (real_of_int w * 0.9, PNone)) ''center'') (duration v),
                   CompositeVideoClip
                     [ColorClip (w, h) (PTuple [PInt 255, PInt 255, PInt 255]) False (duration v),
                      SetDuration (SetPosition (TextClip (description e) fsz fc ''caption''
                        (real_of_int w * 0.9, PNone)) ''center'') (duration v)] True])
           (Some v) s1 =
         (s', Inr ((cvc @ [column w h fsz fc e v]) @ map2 (column w h fsz fc) es vs, loaded',
                   (if es = [] then Some v else Some (last vs))))"
    and l2: "list_all2 (matches fs) es vs"
    and wr: "written s' = written s1"
    and orr: "open_readers s' = open_readers s1 @ map clip_id vs"
    by blast
  from l2 have len: "length vs = length es" by (simp add: list_all2_lengthD)
  have lastv: "(if es = [] then Some v else Some (last vs)) = Some (last (v # vs))"
    using len by (cases vs) auto
  show ?case
    apply (rule exI [of _ "v # vs"])
    apply (rule exI [of _ loaded'])
    apply (rule exI [of _ s'])
    using step ih l2 wr orr mv lastv cid
    by (simp add: s1_def)
qed


lemma process_ok:
  assumes h: "dict_item config ''text_area_height'' = Inr h"
    and tc: "dict_item config ''text_area_color'' = Inr tc"
    and fsz: "dict_item config ''font_size'' = Inr fsz"
    and fc: "dict_item config ''font_color'' = Inr fc"
    and ne: "video_configs \<noteq> []"
    and op: "list_all (opens fs) video_configs"
    and m: "fs (path (hd video_configs)) = Media (ow, oh) f d"
  shows "\<exists>vs s'.
           process_and_composite_videos fs video_configs output_path config s = (s', Inr PNone)
           \<and> list_all2 (matches fs) video_configs vs
           \<and> written s' = written s @
                [\<lparr>composite =
                    (if length video_configs = 1
                     then column ow h fsz fc (video_configs ! 0) (vs ! 0)
                     else ClipsArray [map2 (column ow h fsz fc) video_configs vs]),
                  out_file = output_path, codec = ''libx264'', out_fps = fps (last vs),
                  threads = 4, preset = ''medium''\<rparr>]"
proof -
  from ne obtain first others where vc: "video_configs = first # others"
    by (cases video_configs) auto
  define first_clip where
    "first_clip = \<lparr>clip_id = next_id s, filename = path first, size_v = (ow, oh), fps = f, duration = d\<rparr>"
  define s1 where
    "s1 = s\<lparr>next_id := Suc (next_id s), open_readers := open_readers s @ [next_id s]\<rparr>"
  have o1: "VideoFileClip fs (path first) s = (s1, Inr first_clip)"
    using m vc by (simp add: VideoFileClip_def first_clip_def s1_def)
  from build_columns_ok [OF op, of ow h fsz fc "[]" "[]" None "close first_clip s1"]
  obtain vs loaded' s' where
    bc: "build_columns fs ow h fsz fc video_configs [] [] None (close first_clip s1) =
           (s', Inr (map2 (column ow h fsz fc) video_configs vs, loaded',
                     (if video_configs = [] then None else Some (last vs))))"
    and l2: "list_all2 (matches fs) video_configs vs"
    and wr: "written s' = written (close first_clip s1)"
    by auto
  from l2 have len: "length vs = length video_configs"
    by (simp add: list_all2_lengthD)
  have wr': "written s' = written s"
    using wr by (simp add: close_def s1_def)
  have cols: "length (map2 (column ow h fsz fc) video_configs vs) = length video_configs"
    using len by simp
  have col0: "map2 (column ow h fsz fc) video_configs vs ! 0 =
              column ow h fsz fc (video_configs ! 0) (vs ! 0)"
    using len ne by (cases video_configs; cases vs) simp_all
  have nonempty: "map2 (column ow h fsz fc) video_configs vs \<noteq> []"
    using cols ne by (metis length_0_conv)
  have wc: "write_composite output_path (map2 (column ow h fsz fc) video_configs vs)
              (Some (last vs)) s' =
            (s'\<lparr>written := written s' @
                [\<lparr>composite =
                    (if length video_configs = 1
                     then column ow h fsz fc (video_configs ! 0) (vs ! 0)
                     else ClipsArray [map2 (column ow h fsz fc) video_configs vs]),
                  out_file = output_path, codec = ''libx264'', out_fps = fps (last vs),
                  threads = 4, preset = ''medium''\<rparr>]\<rparr>, Inr PNone)"
    unfolding write_composite_def Let_def
    using nonempty cols col0 by simp
  have run: "process_and_composite_videos fs video_configs output_path config s =
             write_composite output_path (map2 (column ow h fsz fc) video_configs vs)
               (Some (last vs)) s'"
    using bc ne unfolding process_and_composite_videos_def h tc fsz fc vc
    by (simp add: o1 first_clip_def)
  show ?thesis
    apply (rule exI [of _ vs])
    apply (rule exI [of _ "s'\<lparr>written := written s' @
                [\<lparr>composite =
                    (if length video_configs = 1
                     then column ow h fsz fc (video_configs ! 0) (vs ! 0)
                     else ClipsArray [map2 (column ow h fsz fc) video_configs vs]),
                  out_file = output_path, codec = ''libx264'', out_fps = fps (last vs),
                  threads = 4, preset = ''medium''\<rparr>]\<rparr>"])
    using run wc l2 wr' by simp
qed

lemma list_all2_last:
  assumes "list_all2 P xs ys" "xs \<noteq> []"
  shows "P (last xs) (last ys)"
proof -
  from assms(1) have len: "length xs = length ys"
    by (rule list_all2_lengthD)
  with assms(2) have ys: "ys \<noteq> []" by auto
  from assms(2) have lt: "length xs - 1 < length xs" by simp
  from list_all2_nthD [OF assms(1) lt]
  have "P (xs ! (length xs - 1)) (ys ! (length xs - 1))" .
  then show ?thesis
    using assms(2) ys len by (simp add: last_conv_nth)
qed

lemma first_opens:
  assumes "video_configs \<noteq> []" "list_all (opens fs) video_configs"
  shows "\<exists>ow oh f d. fs (path (hd video_configs)) = Media (ow, oh) f d"
proof -
  from assms have "opens fs (hd video_configs)"
    by (cases video_configs) simp_all
  then show ?thesis
    by (cases "fs (path (hd video_configs))") (auto simp: opens_def)
qed

text \<open>
  After a successful verification the frame rate of the last entry is the baseline (the
  frame rate of the first entry) or passes the frame rate test of the verifier against
  it.
\<close>

lemma verified_last_fps:
  assumes "snd (verify_videos fs video_configs s) = Inr PNone"
    and "media_fps (fs (path (last video_configs))) = Some f"
  shows "\<exists>base. media_fps (fs (path (hd video_configs))) = Some base
           \<and> \<not> (f \<noteq> base \<and> float_gt (float_abs (float_sub f base)) float_0_001)"
proof -
  from verify_success [OF assms(1)] have ne: "video_configs \<noteq> []"
    and op: "list_all (opens fs) video_configs"
    and pass: "\<not> list_ex (\<lambda>e. fails_comparison (fs (path (hd video_configs))) (fs (path e)))
                 (tl video_configs)"
    by simp_all
  from ne obtain first rest where vc: "video_configs = first # rest"
    by (cases video_configs) auto
  from op vc obtain bsz bf bd where m: "fs (path first) = Media bsz bf bd"
    by (cases "fs (path first)") (simp_all add: opens_def)
  show ?thesis
  proof (cases "rest = []")
    case True
    with assms(2) vc m have "f = bf" by simp
    with vc m show ?thesis by simp
  next
    case False
    then have "last video_configs \<in> set rest"
      using vc by simp
    with pass vc m have np: "\<not> fails_comparison (Media bsz bf bd) (fs (path (last video_configs)))"
      by (auto simp: list_ex_iff)
    from assms(2) obtain sz d where "fs (path (last video_configs)) = Media sz f d"
      by (cases "fs (path (last video_configs))") simp_all
    with np have "\<not> (f \<noteq> bf \<and> float_gt (float_abs (float_sub f bf)) float_0_001)"
      by auto
    with vc m show ?thesis by simp
  qed
qed

text \<open>
  C7, as the code has it. For a non-empty list whose files open, and a configuration
  holding the four layout keys, the compositor writes one composite to \<^verbatim>\<open>output_path\<close>
  with the codec \<^verbatim>\<open>libx264\<close>, at the frame rate of the clip it opened itself for the
  last entry; it has no frame rate parameter. When verification has succeeded on the
  same list, that rate is tied to the verified baseline, the frame rate of the first
  entry: it is equal to it, or its difference from it, computed in double arithmetic, is
  not greater than the double \<^verbatim>\<open>0.001\<close>.
\<close>

theorem compose_renders_at_last_clip_fps:
  assumes "dict_item config ''text_area_height'' = Inr h"
    and "dict_item config ''text_area_color'' = Inr tc"
    and "dict_item config ''font_size'' = Inr fsz"
    and "dict_item config ''font_color'' = Inr fc"
    and "video_configs \<noteq> []"
    and "list_all (opens fs) video_configs"
  shows "\<exists>w. written (fst (process_and_composite_videos fs video_configs output_path config s)) =
                written s @ [w]
             \<and> out_file w = output_path
             \<and> codec w = ''libx264''
             \<and> media_fps (fs (path (last video_configs))) = Some (out_fps w)
             \<and> (snd (verify_videos fs video_configs s1) = Inr PNone \<longrightarrow>
                  (\<exists>base. media_fps (fs (path (hd video_configs))) = Some base
                     \<and> \<not> (out_fps w \<noteq> base
                            \<and> float_gt (float_abs (float_sub (out_fps w) base)) float_0_001)))"
proof -
  from first_opens [OF assms(5,6)] obtain ow oh f d
    where m: "fs (path (hd video_configs)) = Media (ow, oh) f d" by blast
  from process_ok [OF assms m, of output_path s] obtain vs s' where
    run: "process_and_composite_videos fs video_configs output_path config s = (s', Inr PNone)"
    and l2: "list_all2 (matches fs) video_configs vs"
    and wr: "written s' = written s @
                [\<lparr>composite =
                    (if length video_configs = 1
                     then column ow h fsz fc (video_configs ! 0) (vs ! 0)
                     else ClipsArray [map2 (column ow h fsz fc) video_configs vs]),
                  out_file = output_path, codec = ''libx264'', out_fps = fps (last vs),
                  threads = 4, preset = ''medium''\<rparr>]"
    by blast
  from list_all2_last [OF l2 assms(5)] have "matches fs (last video_configs) (last vs)" .
  then have lf: "media_fps (fs (path (last video_configs))) = Some (fps (last vs))"
    by (simp add: matches_def)
  have tie: "\<exists>base. media_fps (fs (path (hd video_configs))) = Some base
               \<and> \<not> (fps (last vs) \<noteq> base
                      \<and> float_gt (float_abs (float_sub (fps (last vs)) base)) float_0_001)"
    if "snd (verify_videos fs video_configs s1) = Inr PNone"
    using that lf by (rule verified_last_fps)
  show ?thesis
    using run wr lf tie by simp
qed

theorem compose_renders_at_last_clip_fps_witness:
  "dict_item layout_demo ''text_area_height'' = Inr (PInt 100)
   \<and> dict_item layout_demo ''text_area_color'' = Inr (PStr ''red'')
   \<and> dict_item layout_demo ''font_size'' = Inr (PInt 30)
   \<and> dict_item layout_demo ''font_color'' = Inr (PStr ''black'')
   \<and> [entry ''a.mp4'' ''A'', entry ''c.mp4'' ''C''] \<noteq> []
   \<and> list_all (opens fs_demo) [entry ''a.mp4'' ''A'', entry ''c.mp4'' ''C'']
   \<and> snd (verify_videos fs_demo [entry ''a.mp4'' ''A'', entry ''c.mp4'' ''C''] s0) = Inr PNone
   \<and> (\<exists>w. written (fst (process_and_composite_videos fs_demo
                           [entry ''a.mp4'' ''A'', entry ''c.mp4'' ''C''] ''out.mp4''
                           layout_demo s0)) = [w]
          \<and> out_file w = ''out.mp4'' \<and> codec w = ''libx264'' \<and> out_fps w = 61441 / 2048
          \<and> \<not> (out_fps w \<noteq> 30
                 \<and> float_gt (float_abs (float_sub (out_fps w) 30)) float_0_001))"
proof -
  have h1: "dict_item layout_demo ''text_area_height'' = Inr (PInt 100)"
    and h2: "dict_item layout_demo ''text_area_color'' = Inr (PStr ''red'')"
    and h3: "dict_item layout_demo ''font_size'' = Inr (PInt 30)"
    and h4: "dict_item layout_demo ''font_color'' = Inr (PStr ''black'')"
    by (simp_all add: dict_item_def layout_demo_def)
  have h5: "[entry ''a.mp4'' ''A'', entry ''c.mp4'' ''C''] \<noteq> []"
    by simp
  have h6: "list_all (opens fs_demo) [entry ''a.mp4'' ''A'', entry ''c.mp4'' ''C'']"
    by (simp add: opens_def fs_demo_def entry_def)
  have f: "\<not> float_gt (float_abs (float_sub (61441 / 2048) 30)) float_0_001"
    by (rule within_fps_tolerance) (simp add: float_0_001_def)
  have d: "\<not> float_gt (float_abs (float_sub (33 / 16) 2)) float_0_1"
    by (rule within_duration_tolerance) (simp add: float_0_1_def)
  have h7: "snd (verify_videos fs_demo [entry ''a.mp4'' ''A'', entry ''c.mp4'' ''C''] s0) =
              Inr PNone"
    unfolding snd_verify_videos
    using f d by (simp add: fs_demo_def entry_def verify_try_def path_exists_def
        VideoFileClip_def)
  have l: "media_fps (fs_demo (path (last [entry ''a.mp4'' ''A'', entry ''c.mp4'' ''C'']))) =
             Some (61441 / 2048)"
    by (simp add: fs_demo_def entry_def)
  have b: "media_fps (fs_demo (path (hd [entry ''a.mp4'' ''A'', entry ''c.mp4'' ''C'']))) =
             Some 30"
    by (simp add: fs_demo_def entry_def)
  have w0: "written s0 = []"
    by (simp add: s0_def)
  from compose_renders_at_last_clip_fps [OF h1 h2 h3 h4 h5 h6, of "''out.mp4''" s0 s0]
  obtain w where
    w: "written (fst (process_and_composite_videos fs_demo
                        [entry ''a.mp4'' ''A'', entry ''c.mp4'' ''C''] ''out.mp4''
                        layout_demo s0)) = [w]"
      "out_file w = ''out.mp4''" "codec w = ''libx264''" "out_fps w = 61441 / 2048"
    and tie: "\<exists>base. Some 30 = Some base
                \<and> \<not> (out_fps w \<noteq> base
                       \<and> float_gt (float_abs (float_sub (out_fps w) base)) float_0_001)"
    unfolding l b w0 using h7 by auto
  from tie have "\<not> (out_fps w \<noteq> 30
                    \<and> float_gt (float_abs (float_sub (out_fps w) 30)) float_0_001)"
    by simp
  with w h1 h2 h3 h4 h5 h6 h7 show ?thesis
    by blast
qed

text \<open>
  The claim as stated fails: \<^verbatim>\<open>a.mp4\<close> (30 fps) and \<^verbatim>\<open>c.mp4\<close> (30 + 1/2048 fps) pass
  verification, whose baseline is the 30 fps of the first entry, and the composite is
  written at 30 + 1/2048 fps, the rate of the clip the compositor opened for \<^verbatim>\<open>c.mp4\<close>.
\<close>

theorem compose_fps_counterexample:
  "snd (verify_videos fs_demo [entry ''a.mp4'' ''A'', entry ''c.mp4'' ''C''] s0) = Inr PNone
   \<and> media_fps (fs_demo ''a.mp4'') = Some 30
   \<and> map out_fps
        (written (fst (process_and_composite_videos fs_demo
                         [entry ''a.mp4'' ''A'', entry ''c.mp4'' ''C''] ''out.mp4''
                         layout_demo s0))) = [61441 / 2048]"
proof -
  have f: "\<not> float_gt (float_abs (float_sub (61441 / 2048) 30)) float_0_001"
    by (rule within_fps_tolerance) (simp add: float_0_001_def)
  have d: "\<not> float_gt (float_abs (float_sub (33 / 16) 2)) float_0_1"
    by (rule within_duration_tolerance) (simp add: float_0_1_def)
  have v: "snd (verify_videos fs_demo [entry ''a.mp4'' ''A'', entry ''c.mp4'' ''C''] s0) =
             Inr PNone"
    unfolding snd_verify_videos
    using f d by (simp add: fs_demo_def entry_def verify_try_def path_exists_def
        VideoFileClip_def)
  have c: "map out_fps
        (written (fst (process_and_composite_videos fs_demo
                         [entry ''a.mp4'' ''A'', entry ''c.mp4'' ''C''] ''out.mp4''
                         layout_demo s0))) = [61441 / 2048]"
    by (simp add: fs_demo_def entry_def s0_def VideoFileClip_def
        process_and_composite_videos_def layout_demo_def dict_item_def close_def
        write_composite_def Let_def)
  show ?thesis
    using v c by (simp add: fs_demo_def)
qed

text \<open>
  C9. For a non-empty list whose files open, with \<open>vs\<close> the clips opened for the
  entries in order: given exactly one entry the composite written is that entry's column
  itself; given more, it is one row holding the columns of all entries in the order of
  the list.
\<close>

theorem compose_arrangement:
  assumes "dict_item config ''text_area_height'' = Inr h"
    and "dict_item config ''text_area_color'' = Inr tc"
    and "dict_item config ''font_size'' = Inr fsz"
    and "dict_item config ''font_color'' = Inr fc"
    and "video_configs \<noteq> []"
    and "list_all (opens fs) video_configs"
    and "fs (path (hd video_configs)) = Media (ow, oh) f d"
  shows "\<exists>vs. list_all2 (matches fs) video_configs vs
           \<and> map composite
                (written (fst (process_and_composite_videos fs video_configs output_path config s))) =
              map composite (written s) @
                [if length video_configs = 1
                 then column ow h fsz fc (video_configs ! 0) (vs ! 0)
                 else ClipsArray [map2 (column ow h fsz fc) video_configs vs]]"
proof -
  from process_ok [OF assms, of output_path s] obtain vs s' where
    run: "process_and_composite_videos fs video_configs output_path config s = (s', Inr PNone)"
    and l2: "list_all2 (matches fs) video_configs vs"
    and wr: "written s' = written s @
                [\<lparr>composite =
                    (if length video_configs = 1
                     then column ow h fsz fc (video_configs ! 0) (vs ! 0)
                     else ClipsArray [map2 (column ow h fsz fc) video_configs vs]),
                  out_file = output_path, codec = ''libx264'', out_fps = fps (last vs),
                  threads = 4, preset = ''medium''\<rparr>]"
    by blast
  show ?thesis
    apply (rule exI [of _ vs])
    using run l2 wr by simp
qed

theorem compose_arrangement_witness:
  "dict_item layout_demo ''text_area_height'' = Inr (PInt 100)
   \<and> dict_item layout_demo ''text_area_color'' = Inr (PStr ''red'')
   \<and> dict_item layout_demo ''font_size'' = Inr (PInt 30)
   \<and> dict_item layout_demo ''font_color'' = Inr (PStr ''black'')
   \<and> [entry ''a.mp4'' ''A'', entry ''c.mp4'' ''C''] \<noteq> []
   \<and> list_all (opens fs_demo) [entry ''a.mp4'' ''A'', entry ''c.mp4'' ''C'']
   \<and> fs_demo (path (hd [entry ''a.mp4'' ''A'', entry ''c.mp4'' ''C''])) = Media (640, 360) 30 2
   \<and> (\<exists>vs. list_all2 (matches fs_demo) [entry ''a.mp4'' ''A'', entry ''c.mp4'' ''C''] vs
          \<and> map composite
               (written (fst (process_and_composite_videos fs_demo
                                [entry ''a.mp4'' ''A'', entry ''c.mp4'' ''C''] ''out.mp4''
                                layout_demo s0))) =
             [ClipsArray
                [map2 (column 640 (PInt 100) (PInt 30) (PStr ''black''))
                   [entry ''a.mp4'' ''A'', entry ''c.mp4'' ''C''] vs]])"
proof -
  have h1: "dict_item layout_demo ''text_area_height'' = Inr (PInt 100)"
    and h2: "dict_item layout_demo ''text_area_color'' = Inr (PStr ''red'')"
    and h3: "dict_item layout_demo ''font_size'' = Inr (PInt 30)"
    and h4: "dict_item layout_demo ''font_color'' = Inr (PStr ''black'')"
    by (simp_all add: dict_item_def layout_demo_def)
  have h5: "[entry ''a.mp4'' ''A'', entry ''c.mp4'' ''C''] \<noteq> []"
    by simp
  have h6: "list_all (opens fs_demo) [entry ''a.mp4'' ''A'', entry ''c.mp4'' ''C'']"
    by (simp add: opens_def fs_demo_def entry_def)
  have h7: "fs_demo (path (hd [entry ''a.mp4'' ''A'', entry ''c.mp4'' ''C''])) =
              Media (640, 360) 30 2"
    by (simp add: fs_demo_def entry_def)
  have w0: "map composite (written s0) = []"
    by (simp add: s0_def)
  show ?thesis
    using h1 h2 h3 h4 h6 h7
      compose_arrangement [OF h1 h2 h3 h4 h5 h6 h7, of "''out.mp4''" s0]
    unfolding w0 by simp
qed

text \<open>
  C3. The clips opened in the loop are collected in \<^verbatim>\<open>loaded_clips\<close> and never closed:
  after a successful run on one entry the reader of the clip opened in the loop
  (object 1) is still open.
\<close>

theorem compose_leaves_clip_open:
  "open_readers (fst (process_and_composite_videos fs_demo [entry ''a.mp4'' ''A''] ''out.mp4''
                        layout_demo s0)) = [1]
   \<and> snd (process_and_composite_videos fs_demo [entry ''a.mp4'' ''A''] ''out.mp4''
            layout_demo s0) = Inr PNone"
  by (simp add: process_and_composite_videos_def layout_demo_def dict_item_def fs_demo_def
      entry_def s0_def VideoFileClip_def close_def write_composite_def Let_def)

text \<open>
  C5. With \<^verbatim>\<open>text_area_color\<close> configured as \<^verbatim>\<open>"red"\<close>, the background of the caption
  band has the size \<open>(original_width, text_area_height)\<close> and the duration of the clip,
  and its color is the literal \<^verbatim>\<open>(255, 255, 255)\<close>, not the configured one.
\<close>

theorem compose_band_color_is_literal:
  "dict_item layout_demo ''text_area_color'' = Inr (PStr ''red'')
   \<and> map composite
        (written (fst (process_and_composite_videos fs_demo [entry ''a.mp4'' ''A'']
                         ''out.mp4'' layout_demo s0))) =
      [ClipsArray
         [[Video \<lparr>clip_id = 1, filename = ''a.mp4'', size_v = (640, 360), fps = 30,
                   duration = 2\<rparr>],
          [CompositeVideoClip
             [ColorClip (640, PInt 100) (PTuple [PInt 255, PInt 255, PInt 255]) False 2,
              SetDuration
                (SetPosition
                   (TextClip ''A'' (PInt 30) (PStr ''black'') ''caption'' (576, PNone))
                   ''center'')
                2]
             True]]]"
  by (simp add: process_and_composite_videos_def layout_demo_def dict_item_def fs_demo_def
      entry_def s0_def VideoFileClip_def close_def write_composite_def Let_def)

text \<open>
  C8. On the empty list \<^verbatim>\<open>video_configs[0]\<close> raises \<^verbatim>\<open>IndexError\<close> before the loop
  and before the guard against an empty list of columns is reached.
\<close>

theorem compose_empty_list_index_error:
  "process_and_composite_videos fs_demo [] ''out.mp4'' layout_demo s0 = (s0, Inl IndexError)"
  by (simp add: process_and_composite_videos_def layout_demo_def dict_item_def)

end
